theory Spec2Isabelle
  imports Complex_Main "HOL-Library.Log_Nat"
begin

section \<open>View models of phy: trace interval, correlograms, feature dimensions\<close>

text \<open>
  Shallow embedding of the numeric parts of \<^verbatim>\<open>phy/cluster/view_models.py\<close>.
  Python integers are \<^typ>\<open>int\<close>. The floats of \<^verbatim>\<open>change_bins\<close> are IEEE 754 doubles:
  a finite double is the \<^typ>\<open>rat\<close> it denotes, and every operation is the exact one
  followed by rounding to the nearest double, ties to even. The entries of a correlogram
  tensor are idealised as \<^typ>\<open>real\<close>. Exceptions are values of \<open>py_error\<close>, carried in
  the left summand of a sum type.
\<close>

subsection \<open>Python and NumPy primitives\<close>

datatype py_error =
  ValueError | AssertionError | TypeError | KeyError | OverflowError

text \<open>
  An element of the argument of the interval setter: an integer, a finite float (by its
  value), a NaN, an infinity, or \<^verbatim>\<open>None\<close>. Strings are not modelled.
\<close>

datatype py_num = PyInt int | PyFloat real | PyNaN | PyPosInf | PyNegInf | PyNone

text \<open>Truncation towards zero, as \<^verbatim>\<open>int\<close> does on a finite float.\<close>

definition trunc :: "'a::floor_ceiling \<Rightarrow> int" where
  "trunc x = (if 0 \<le> x then \<lfloor>x\<rfloor> else \<lceil>x\<rceil>)"

text \<open>
  \<^verbatim>\<open>int(x)\<close>: the identity on integers and truncation on finite floats; it raises
  ValueError on a NaN, OverflowError on an infinity and TypeError on \<^verbatim>\<open>None\<close>.
\<close>

fun py_int :: "py_num \<Rightarrow> py_error + int" where
  "py_int (PyInt i) = Inr i"
| "py_int (PyFloat x) = Inr (trunc x)"
| "py_int PyNaN = Inl ValueError"
| "py_int PyPosInf = Inl OverflowError"
| "py_int PyNegInf = Inl OverflowError"
| "py_int PyNone = Inl TypeError"

text \<open>\<^verbatim>\<open>np.clip(a, a_min, a_max)\<close> is \<^verbatim>\<open>minimum(a_max, maximum(a, a_min))\<close>.\<close>

definition np_clip :: "'a::linorder \<Rightarrow> 'a \<Rightarrow> 'a \<Rightarrow> 'a" where
  "np_clip a a_min a_max = min a_max (max a a_min)"

subsection \<open>TraceViewModel.interval (setter)\<close>

text \<open>
  The value assigned to the property: a tuple, a list, or something that is no sequence.
\<close>

datatype py_value = PyTuple "py_num list" | PyList "py_num list" | PyScalar py_num

text \<open>
  The window shift of the setter: the \<^verbatim>\<open>if start < 0: ... elif end >= n: ...\<close> statement.
\<close>

definition shift_interval :: "int \<Rightarrow> int \<Rightarrow> int \<Rightarrow> int \<times> int" where
  "shift_interval n start end =
     (if start < 0 then (0, end + (- start))
      else if end \<ge> n then (start - (end - n), n)
      else (start, end))"

text \<open>The statements of the setter after the two conversions, up to the assertion.\<close>

definition clamp_interval :: "int \<Rightarrow> int \<Rightarrow> int \<Rightarrow> py_error + (int \<times> int)" where
  "clamp_interval n start end =
     (let (start, end) = shift_interval n start end;
          start = np_clip start 0 end;
          end = np_clip end start n
      in if 0 \<le> start \<and> start < end \<and> end \<le> n
         then Inr (start, end) else Inl AssertionError)"

text \<open>
  The setter, with \<open>n = self.model.traces.shape[0]\<close>. \<^verbatim>\<open>int(start), int(end)\<close> converts
  from left to right, so an error of the first conversion comes first. The result is the
  value stored in \<^verbatim>\<open>self._interval\<close>; what follows the assignment
  (\<^verbatim>\<open>_load_traces\<close>, \<^verbatim>\<open>view.update\<close>) is not part of the model.
\<close>

definition interval_setter :: "int \<Rightarrow> py_value \<Rightarrow> py_error + (int \<times> int)" where
  "interval_setter n v =
     (case v of
        PyTuple [a, b] \<Rightarrow>
          (case py_int a of
             Inl e \<Rightarrow> Inl e
           | Inr start \<Rightarrow>
               (case py_int b of
                  Inl e \<Rightarrow> Inl e
                | Inr end \<Rightarrow> clamp_interval n start end))
      | _ \<Rightarrow> Inl ValueError)"

subsection \<open>IEEE 754 double arithmetic\<close>

text \<open>
  A finite double is the rational it denotes. \<open>fl\<close> rounds a rational to the nearest
  number \<open>m * 2 ^ e\<close> with a mantissa \<open>m\<close> of 53 bits, ties to the even mantissa; the
  exponent range is not bounded (no overflow to an infinity, no subnormal numbers).
  \<open>ilog2 x\<close> is the exponent of the leading bit of \<open>x > 0\<close>, that is \<open>\<lfloor>log\<^sub>2 x\<rfloor>\<close>.
\<close>

definition pow2 :: "int \<Rightarrow> rat" where
  "pow2 e = (if 0 \<le> e then 2 ^ nat e else 1 / 2 ^ nat (- e))"

definition round_half_even :: "rat \<Rightarrow> int" where
  "round_half_even x =
     (let f = \<lfloor>x\<rfloor>; d = x - of_int f
      in if d < 1 / 2 then f else if 1 / 2 < d then f + 1 else if even f then f else f + 1)"

definition ilog2 :: "rat \<Rightarrow> int" where
  "ilog2 x =
     (let (p, q) = quotient_of x; e = bitlen p - bitlen q
      in if x < pow2 e then e - 1 else e)"

definition fl :: "rat \<Rightarrow> rat" where
  "fl x =
     (if x = 0 then 0
      else (let e = ilog2 \<bar>x\<bar> - 52
            in of_int (round_half_even (x / pow2 e)) * pow2 e))"

text \<open>
  Multiplication and division of doubles: the exact result, rounded. A divisor is never
  zero where \<open>fdiv\<close> is used below.
\<close>

definition fmul :: "rat \<Rightarrow> rat \<Rightarrow> rat" where
  "fmul a b = fl (a * b)"

definition fdiv :: "rat \<Rightarrow> rat \<Rightarrow> rat" where
  "fdiv a b = fl (a / b)"

subsection \<open>Correlograms: \<^verbatim>\<open>_oddify\<close> and \<^verbatim>\<open>CorrelogramViewModel._normalize\<close>\<close>

definition oddify :: "int \<Rightarrow> int" where
  "oddify x = (if x mod 2 = 1 then x else x + 1)"

text \<open>
  A correlogram tensor \<^verbatim>\<open>ccgs[i, j, lag]\<close> as nested lists: the rows \<open>i\<close>, in each row the
  slices \<open>j\<close>, in each slice the values along the lag axis.
\<close>

type_synonym tensor = "real list list list"

text \<open>\<^verbatim>\<open>ndarray.max()\<close> over a flat sequence: NumPy raises ValueError on a zero-size array.\<close>

definition np_max :: "real list \<Rightarrow> py_error + real" where
  "np_max xs = (case xs of [] \<Rightarrow> Inl ValueError | x # r \<Rightarrow> Inr (fold max r x))"

text \<open>Mapping a fallible function over a list, stopping at the first error.\<close>

fun map_err :: "('a \<Rightarrow> py_error + 'b) \<Rightarrow> 'a list \<Rightarrow> py_error + 'b list" where
  "map_err f [] = Inr []"
| "map_err f (x # xs) =
     (case f x of
        Inl e \<Rightarrow> Inl e
      | Inr y \<Rightarrow> (case map_err f xs of Inl e \<Rightarrow> Inl e | Inr ys \<Rightarrow> Inr (y # ys)))"

text \<open>
  One lag slice in \<open>independent\<close> mode: \<^verbatim>\<open>ccgs.max(axis=2)\<close> is its maximum,
  \<^verbatim>\<open>np.maximum(1., ...)\<close> floors it at 1, and the slice is multiplied by the reciprocal.
\<close>

definition normalize_slice :: "real list \<Rightarrow> py_error + real list" where
  "normalize_slice sl =
     (case np_max sl of
        Inl e \<Rightarrow> Inl e
      | Inr m \<Rightarrow> Inr (map (\<lambda>x. x * (1 / max 1 m)) sl))"

text \<open>
  \<^verbatim>\<open>_normalize\<close>, with \<^verbatim>\<open>self._normalization\<close> as first argument. The result \<open>None\<close>
  is Python's \<^verbatim>\<open>None\<close>, returned when no branch of the \<^verbatim>\<open>if\<close>/\<^verbatim>\<open>elif\<close> is taken.
\<close>

definition normalize_ccgs :: "string \<Rightarrow> tensor \<Rightarrow> py_error + tensor option" where
  "normalize_ccgs normalization ccgs =
     (if length ccgs = 0 then Inr (Some ccgs)
      else if normalization = ''equal'' then
        (case np_max (concat (concat ccgs)) of
           Inl e \<Rightarrow> Inl e
         | Inr m \<Rightarrow> Inr (Some (map (map (map (\<lambda>x. x * (1 / max 1 m)))) ccgs)))
      else if normalization = ''independent'' then
        (case map_err (map_err normalize_slice) ccgs of
           Inl e \<Rightarrow> Inl e
         | Inr t \<Rightarrow> Inr (Some t))
      else Inr None)"

subsection \<open>CorrelogramViewModel\<close>

text \<open>
  The state of the view model. \<open>ccgs\<close> is the cached symmetrized tensor \<^verbatim>\<open>self._ccgs\<close>,
  \<open>view_correlograms\<close> and \<open>visual_correlograms\<close> are the two attributes of the rendering
  surface the code assigns, \<open>updates\<close> counts the calls of \<^verbatim>\<open>view.update()\<close>, and
  \<open>kernel_calls\<close> records the arguments of every call of the histogram kernel
  \<^verbatim>\<open>correlograms\<close> (cluster order, bin size, window size).
\<close>

record correlogram_vm =
  binsize :: int
  winsize_bins :: int
  normalization :: string
  ccgs :: "tensor option"
  cluster_ids :: "int list"
  view_correlograms :: "tensor option"
  visual_correlograms :: "tensor option"
  updates :: nat
  kernel_calls :: "(int list \<times> int \<times> int) list"

text \<open>The class attributes, before any selection.\<close>

definition initial_vm :: correlogram_vm where
  "initial_vm = \<lparr>binsize = 20, winsize_bins = 41, normalization = ''equal'', ccgs = None,
     cluster_ids = [], view_correlograms = None, visual_correlograms = None,
     updates = 0, kernel_calls = []\<rparr>"

text \<open>
  The histogram kernel \<^verbatim>\<open>correlograms\<close> and \<^verbatim>\<open>_symmetrize_correlograms\<close> live in
  \<^verbatim>\<open>phy.stats.ccg\<close>; they are parameters of the model. The kernel is given the cluster
  order, the bin size and the window size (the spike samples and spike clusters are fixed
  by the selection).
\<close>

type_synonym kernel = "int list \<Rightarrow> int \<Rightarrow> int \<Rightarrow> tensor"

definition on_select ::
  "kernel \<Rightarrow> (tensor \<Rightarrow> tensor) \<Rightarrow> int list \<Rightarrow> correlogram_vm \<Rightarrow> py_error option \<times> correlogram_vm" where
  "on_select correlograms symmetrize clusters s =
     (let s = s\<lparr>updates := updates s + 1\<rparr>;
          w = oddify (winsize_bins s);
          raw = correlograms clusters (binsize s) w;
          s = s\<lparr>kernel_calls := kernel_calls s @ [(clusters, binsize s, w)]\<rparr>;
          s = s\<lparr>ccgs := Some (symmetrize raw)\<rparr>
      in case normalize_ccgs (normalization s) (symmetrize raw) of
           Inl e \<Rightarrow> (Some e, s)
         | Inr t \<Rightarrow> (None, s\<lparr>view_correlograms := t, updates := updates s + 1\<rparr>))"

definition select ::
  "kernel \<Rightarrow> (tensor \<Rightarrow> tensor) \<Rightarrow> int list \<Rightarrow> correlogram_vm \<Rightarrow> py_error option \<times> correlogram_vm" where
  "select correlograms symmetrize ids s =
     on_select correlograms symmetrize ids (s\<lparr>cluster_ids := ids\<rparr>)"

text \<open>
  \<^verbatim>\<open>change_bins(bin, half_width)\<close> with \<open>sr = self.model.sample_rate\<close>. The sample rate
  and the two arguments are doubles (or integers below \<open>2 ^ 53\<close>), given by their values;
  the literal \<^verbatim>\<open>.001\<close> is the double \<open>fl (1 / 1000)\<close> and \<^verbatim>\<open>1e6\<close> is exact. Both
  arguments default to \<^verbatim>\<open>None\<close>, and \<^verbatim>\<open>None * .001\<close> raises TypeError. \<^verbatim>\<open>int\<close> of a
  double truncates towards zero.
\<close>

definition change_bins ::
  "kernel \<Rightarrow> (tensor \<Rightarrow> tensor) \<Rightarrow> rat \<Rightarrow> rat option \<Rightarrow> rat option \<Rightarrow> correlogram_vm
     \<Rightarrow> py_error option \<times> correlogram_vm" where
  "change_bins correlograms symmetrize sr bin half_width s =
     (case bin of
        None \<Rightarrow> (Some TypeError, s)
      | Some bin \<Rightarrow>
          (let bin = np_clip (fmul bin (fl (1 / 1000))) (fl (1 / 1000)) 1000000;
               s = s\<lparr>binsize := trunc (fmul sr bin)\<rparr>
           in case half_width of
                None \<Rightarrow> (Some TypeError, s)
              | Some half_width \<Rightarrow>
                  (let half_width =
                         np_clip (fmul half_width (fl (1 / 1000))) (fl (1 / 1000)) 1000000;
                       s = s\<lparr>winsize_bins := 2 * trunc (fdiv half_width bin) + 1\<rparr>
                   in select correlograms symmetrize (cluster_ids s) s)))"

text \<open>
  The setter of \<^verbatim>\<open>normalization\<close>; \<^verbatim>\<open>self._ccgs\<close> is \<^verbatim>\<open>None\<close> before the first
  selection, and \<^verbatim>\<open>len(None)\<close> raises TypeError.
\<close>

definition normalization_setter :: "string \<Rightarrow> correlogram_vm \<Rightarrow> py_error option \<times> correlogram_vm" where
  "normalization_setter v s =
     (let s = s\<lparr>normalization := v\<rparr>
      in case ccgs s of
           None \<Rightarrow> (Some TypeError, s)
         | Some c \<Rightarrow>
             (case normalize_ccgs (normalization s) c of
                Inl e \<Rightarrow> (Some e, s)
              | Inr t \<Rightarrow> (None, s\<lparr>visual_correlograms := t, updates := updates s + 1\<rparr>)))"

definition toggle_normalization :: "correlogram_vm \<Rightarrow> py_error option \<times> correlogram_vm" where
  "toggle_normalization s =
     normalization_setter
       (if normalization s = ''independent'' then ''equal'' else ''independent'') s"

text \<open>
  A kernel for concrete runs: with no spike selected the histogram has no rows. The
  identity stands for the symmetrization there.
\<close>

definition no_spikes :: kernel where
  "no_spikes clusters bs ws = []"

subsection \<open>Feature dimensions: \<^verbatim>\<open>_dimensions\<close>\<close>

text \<open>A plot dimension: the tag \<^verbatim>\<open>'time'\<close> or a pair \<^verbatim>\<open>(channel, feature_index)\<close>.\<close>

datatype dimension = Time | ChannelFeature int nat

type_synonym dim_dict = "nat \<times> nat \<rightharpoonup> dimension"

text \<open>The body of the first loop: time in the first row and the first column.\<close>

definition border_step ::
  "int list \<Rightarrow> int list \<Rightarrow> nat \<Rightarrow> dim_dict \<times> dim_dict \<Rightarrow> dim_dict \<times> dim_dict" where
  "border_step x_channels y_channels i d =
     (let (x_dim, y_dim) = d;
          x_dim = x_dim((0, i) \<mapsto> Time);
          y_dim = y_dim((0, i) \<mapsto> ChannelFeature (x_channels ! (i - 1)) 0);
          x_dim = x_dim((i, 0) \<mapsto> Time);
          y_dim = y_dim((i, 0) \<mapsto> ChannelFeature (y_channels ! (i - 1)) 0)
      in (x_dim, y_dim))"

text \<open>The body of the inner loop of the second, nested loop.\<close>

definition interior_step ::
  "int list \<Rightarrow> int list \<Rightarrow> nat \<Rightarrow> nat \<Rightarrow> dim_dict \<times> dim_dict \<Rightarrow> dim_dict \<times> dim_dict" where
  "interior_step x_channels y_channels i j d =
     (let (x_dim, y_dim) = d;
          x_dim = x_dim((i, j) \<mapsto> ChannelFeature (x_channels ! (i - 1)) (j - 1));
          y_dim = y_dim((i, j) \<mapsto> ChannelFeature (y_channels ! (j - 1)) (i - 1))
      in (x_dim, y_dim))"

text \<open>
  \<^verbatim>\<open>_dimensions(x_channels, y_channels)\<close>; \<^verbatim>\<open>range(1, n + 1)\<close> is \<open>[1..<n + 1]\<close>, so every
  list access \<open>i - 1\<close> is below \<open>n\<close>, the length of both lists once the assertion has passed.
\<close>

definition dimensions :: "int list \<Rightarrow> int list \<Rightarrow> py_error + (dim_dict \<times> dim_dict)" where
  "dimensions x_channels y_channels =
     (let n = length x_channels
      in if length y_channels \<noteq> n then Inl AssertionError
         else
           (let y_dim = Map.empty;
                x_dim = Map.empty;
                x_dim = x_dim((0, 0) \<mapsto> Time);
                y_dim = y_dim((0, 0) \<mapsto> Time);
                d = fold (border_step x_channels y_channels) [1..<n + 1] (x_dim, y_dim);
                d = fold (\<lambda>i. fold (interior_step x_channels y_channels i) [1..<n + 1])
                      [1..<n + 1] d
            in Inr d))"

text \<open>
  Reading one cell of a returned dictionary: \<^verbatim>\<open>_dimensions(x_channels, y_channels)[0][row, col]\<close>
  and \<^verbatim>\<open>...[1][row, col]\<close>; a missing key raises KeyError.
\<close>

definition lookup :: "dim_dict \<Rightarrow> nat \<times> nat \<Rightarrow> py_error + dimension" where
  "lookup m p = (case m p of None \<Rightarrow> Inl KeyError | Some v \<Rightarrow> Inr v)"

definition x_dim_of :: "int list \<Rightarrow> int list \<Rightarrow> nat \<times> nat \<Rightarrow> py_error + dimension" where
  "x_dim_of x_channels y_channels p =
     (case dimensions x_channels y_channels of Inl e \<Rightarrow> Inl e | Inr d \<Rightarrow> lookup (fst d) p)"

definition y_dim_of :: "int list \<Rightarrow> int list \<Rightarrow> nat \<times> nat \<Rightarrow> py_error + dimension" where
  "y_dim_of x_channels y_channels p =
     (case dimensions x_channels y_channels of Inl e \<Rightarrow> Inl e | Inr d \<Rightarrow> lookup (snd d) p)"

subsection \<open>Properties of the interval setter\<close>

lemma interval_setter_tuple:
  assumes "py_int a = Inr start" and "py_int b = Inr end"
  shows "interval_setter n (PyTuple [a, b]) = clamp_interval n start end"
  using assms by (simp add: interval_setter_def)

lemma interval_setter_ints:
  "interval_setter n (PyTuple [PyInt start, PyInt end]) =
     (let (start, end) = shift_interval n start end;
          start = np_clip start 0 end;
          end = np_clip end start n
      in if 0 \<le> start \<and> start < end \<and> end \<le> n
         then Inr (start, end) else Inl AssertionError)"
  by (simp add: interval_setter_def clamp_interval_def)

text \<open>
  C1: for integers \<open>start < end\<close> and \<open>n \<ge> 1\<close> samples, wherever the pair lies, the setter
  passes its assertion and stores an interval \<open>(start', end')\<close> with
  \<open>0 \<le> start' < end' \<le> n\<close>, of the same width when that width is at most \<open>n\<close>.
\<close>

theorem interval_setter_clamps:
  assumes "start < end" and "1 \<le> n"
  shows "\<exists>s' e'. interval_setter n (PyTuple [PyInt start, PyInt end]) = Inr (s', e')
           \<and> 0 \<le> s' \<and> s' < e' \<and> e' \<le> n
           \<and> (end - start \<le> n \<longrightarrow> e' - s' = end - start)"
proof -
  consider (left) "start < 0" | (right) "0 \<le> start" "n \<le> end" | (inside) "0 \<le> start" "end < n"
    by linarith
  then show ?thesis
  proof cases
    case left
    with assms show ?thesis
      by (simp add: interval_setter_ints shift_interval_def np_clip_def min_def max_def)
  next
    case right
    with assms show ?thesis
      by (simp add: interval_setter_ints shift_interval_def np_clip_def min_def max_def)
  next
    case inside
    with assms show ?thesis
      by (simp add: interval_setter_ints shift_interval_def np_clip_def min_def max_def)
  qed
qed

theorem interval_setter_clamps_witness:
  "(15::int) < 18 \<and> (1::int) \<le> 10
   \<and> interval_setter 10 (PyTuple [PyInt 15, PyInt 18]) = Inr (7, 10)"
  using interval_setter_clamps [of 15 18 10]
  by (simp add: interval_setter_ints shift_interval_def np_clip_def)

text \<open>
  C9: an interval that already satisfies \<open>0 \<le> start < end \<le> n\<close> is stored as it is.
\<close>

theorem interval_setter_idempotent:
  assumes "1 \<le> n" and "0 \<le> s" and "s < e" and "e \<le> n"
  shows "interval_setter n (PyTuple [PyInt s, PyInt e]) = Inr (s, e)"
  using assms
  by (simp add: interval_setter_ints shift_interval_def np_clip_def min_def max_def)

theorem interval_setter_idempotent_witness:
  "(1::int) \<le> 10 \<and> (0::int) \<le> 7 \<and> (7::int) < 10 \<and> (10::int) \<le> 10
   \<and> interval_setter 10 (PyTuple [PyInt 7, PyInt 10]) = Inr (7, 10)"
  using interval_setter_idempotent [of 10 7 10] by simp

lemma clamp_interval_passes:
  assumes "start < end" and "1 \<le> n"
  shows "\<exists>r. clamp_interval n start end = Inr r"
  using assms
  by (simp add: clamp_interval_def shift_interval_def np_clip_def min_def max_def)

lemma clamp_interval_asserts:
  assumes "\<not> (start < end \<and> 1 \<le> n)"
  shows "clamp_interval n start end = Inl AssertionError"
  using assms
  by (auto simp add: clamp_interval_def shift_interval_def np_clip_def min_def max_def)

lemma py_int_ValueError: "(py_int a = Inl ValueError) = (a = PyNaN)"
  by (cases a) simp_all

lemma py_int_finite: "(\<exists>i. py_int a = Inr i) = ((\<exists>i. a = PyInt i) \<or> (\<exists>x. a = PyFloat x))"
  by (cases a) simp_all

text \<open>
  C7, as stated, fails: the tuple \<open>(5, 3)\<close> consists of exactly two numeric values, and
  the setter raises on it (the assertion after the clamping fails).
\<close>

theorem interval_setter_raises_counterexample:
  "length [PyInt 5, PyInt 3] = 2
   \<and> interval_setter 10 (PyTuple [PyInt 5, PyInt 3]) = Inl AssertionError"
  by (simp add: interval_setter_ints shift_interval_def np_clip_def)

text \<open>
  C7, amended, for arguments whose elements are numbers or \<^verbatim>\<open>None\<close>: the setter raises
  ValueError exactly when its argument is not a tuple of exactly two values, or is one
  whose first element is a NaN, or whose first element is finite and whose second is a
  NaN. On a tuple of two values the conversions run from left to right and the first
  error of \<^verbatim>\<open>int\<close> is raised (ValueError for a NaN, OverflowError for an infinity,
  TypeError for \<^verbatim>\<open>None\<close>). When both conversions succeed, with results \<open>start\<close> and
  \<open>end\<close>, the interval is clamped, and the assertion passes and an interval is stored
  exactly when \<open>start < end\<close> and \<open>n \<ge> 1\<close>; otherwise AssertionError is raised.
\<close>

theorem interval_setter_raises:
  "(interval_setter n v = Inl ValueError)
     = ((\<forall>a b. v \<noteq> PyTuple [a, b])
        \<or> (\<exists>a b. v = PyTuple [a, b]
              \<and> (a = PyNaN \<or> (((\<exists>i. a = PyInt i) \<or> (\<exists>x. a = PyFloat x)) \<and> b = PyNaN))))
   \<and> (py_int a = Inl e \<longrightarrow> interval_setter n (PyTuple [a, b]) = Inl e)
   \<and> (py_int a = Inr s \<and> py_int b = Inl e \<longrightarrow> interval_setter n (PyTuple [a, b]) = Inl e)
   \<and> (py_int a = Inr s \<and> py_int b = Inr t \<longrightarrow>
        (interval_setter n (PyTuple [a, b]) = Inl AssertionError) = (\<not> (s < t \<and> 1 \<le> n))
      \<and> (\<exists>r. interval_setter n (PyTuple [a, b]) = Inr r) = (s < t \<and> 1 \<le> n))"
proof (intro conjI impI)
  show "(interval_setter n v = Inl ValueError)
     = ((\<forall>a b. v \<noteq> PyTuple [a, b])
        \<or> (\<exists>a b. v = PyTuple [a, b]
              \<and> (a = PyNaN \<or> (((\<exists>i. a = PyInt i) \<or> (\<exists>x. a = PyFloat x)) \<and> b = PyNaN))))"
  proof (cases "\<exists>a b. v = PyTuple [a, b]")
    case False
    then show ?thesis
      by (simp add: interval_setter_def split: py_value.splits list.splits)
  next
    case True
    then obtain a b where v: "v = PyTuple [a, b]" by blast
    have "(interval_setter n (PyTuple [a, b]) = Inl ValueError)
        = (a = PyNaN \<or> (((\<exists>i. a = PyInt i) \<or> (\<exists>x. a = PyFloat x)) \<and> b = PyNaN))"
    proof (cases "py_int a")
      case (Inl e)
      then show ?thesis
        using py_int_ValueError [of a] py_int_finite [of a]
        by (auto simp add: interval_setter_def)
    next
      case a: (Inr s)
      show ?thesis
      proof (cases "py_int b")
        case (Inl e)
        with a show ?thesis
          using py_int_ValueError [of a] py_int_ValueError [of b] py_int_finite [of a]
          by (auto simp add: interval_setter_def)
      next
        case (Inr t)
        have "clamp_interval n s t \<noteq> Inl ValueError"
          using clamp_interval_passes [of s t n] clamp_interval_asserts [of s t n]
          by (cases "s < t \<and> 1 \<le> n") auto
        with a Inr show ?thesis
          using py_int_ValueError [of a] py_int_ValueError [of b]
          by (auto simp add: interval_setter_tuple)
      qed
    qed
    with v show ?thesis by simp
  qed
next
  assume "py_int a = Inl e"
  then show "interval_setter n (PyTuple [a, b]) = Inl e"
    by (simp add: interval_setter_def)
next
  assume "py_int a = Inr s \<and> py_int b = Inl e"
  then show "interval_setter n (PyTuple [a, b]) = Inl e"
    by (simp add: interval_setter_def)
next
  assume "py_int a = Inr s \<and> py_int b = Inr t"
  then have c: "interval_setter n (PyTuple [a, b]) = clamp_interval n s t"
    by (simp add: interval_setter_tuple)
  show "(interval_setter n (PyTuple [a, b]) = Inl AssertionError) = (\<not> (s < t \<and> 1 \<le> n))"
    unfolding c using clamp_interval_passes [of s t n] clamp_interval_asserts [of s t n]
    by (cases "s < t \<and> 1 \<le> n") auto
  show "(\<exists>r. interval_setter n (PyTuple [a, b]) = Inr r) = (s < t \<and> 1 \<le> n)"
    unfolding c using clamp_interval_passes [of s t n] clamp_interval_asserts [of s t n]
    by (cases "s < t \<and> 1 \<le> n") auto
qed

theorem interval_setter_raises_witness:
  "interval_setter 10 (PyList [PyInt 2, PyInt 4]) = Inl ValueError
   \<and> interval_setter 10 (PyTuple [PyInt 2]) = Inl ValueError
   \<and> interval_setter 10 (PyTuple [PyNaN, PyInt 4]) = Inl ValueError
   \<and> interval_setter 10 (PyTuple [PyInt 2, PyNaN]) = Inl ValueError
   \<and> interval_setter 10 (PyTuple [PyPosInf, PyNaN]) = Inl OverflowError
   \<and> interval_setter 10 (PyTuple [PyInt 2, PyNone]) = Inl TypeError
   \<and> (\<exists>r. interval_setter 10 (PyTuple [PyFloat (5 / 2), PyInt 4]) = Inr r)
   \<and> interval_setter 0 (PyTuple [PyInt 2, PyInt 4]) = Inl AssertionError"
  using interval_setter_raises [of 10 "PyList [PyInt 2, PyInt 4]" PyNaN ValueError "PyInt 4" 2 4]
    interval_setter_raises [of 10 "PyTuple [PyInt 2]" "PyInt 2" ValueError PyNaN 2 4]
    interval_setter_raises [of 10 "PyTuple [PyInt 2]" PyPosInf OverflowError PyNaN 2 4]
    interval_setter_raises [of 10 "PyTuple [PyInt 2]" "PyInt 2" TypeError PyNone 2 4]
    interval_setter_raises [of 10 "PyTuple [PyInt 2]" "PyFloat (5 / 2)" TypeError "PyInt 4" 2 4]
    interval_setter_raises [of 0 "PyTuple [PyInt 2]" "PyInt 2" TypeError "PyInt 4" 2 4]
  by (simp add: trunc_def)

subsection \<open>Properties of \<^verbatim>\<open>_dimensions\<close>\<close>


lemma border_step_x:
  "fst (border_step xs ys i d) p = (if p = (0, i) \<or> p = (i, 0) then Some Time else fst d p)"
  by (cases d) (simp add: border_step_def)

lemma border_step_y:
  "snd (border_step xs ys i d) p =
     (if p = (i, 0) then Some (ChannelFeature (ys ! (i - 1)) 0)
      else if p = (0, i) then Some (ChannelFeature (xs ! (i - 1)) 0)
      else snd d p)"
  by (cases d) (simp add: border_step_def)

lemma interior_step_x:
  "fst (interior_step xs ys i j d) p =
     (if p = (i, j) then Some (ChannelFeature (xs ! (i - 1)) (j - 1)) else fst d p)"
  by (cases d) (simp add: interior_step_def)

lemma interior_step_y:
  "snd (interior_step xs ys i j d) p =
     (if p = (i, j) then Some (ChannelFeature (ys ! (j - 1)) (i - 1)) else snd d p)"
  by (cases d) (simp add: interior_step_def)

lemma fold_border_x:
  "fst (fold (border_step xs ys) is d) p =
     (if (fst p = 0 \<and> snd p \<in> set is) \<or> (snd p = 0 \<and> fst p \<in> set is)
      then Some Time else fst d p)"
proof (induction "is" arbitrary: d)
  case Nil
  show ?case by simp
next
  case (Cons i "is")
  show ?case
    by (auto simp add: Cons.IH border_step_x border_step_y prod_eq_iff)
qed

lemma fold_border_y:
  assumes "0 \<notin> set is"
  shows "snd (fold (border_step xs ys) is d) p =
     (if fst p = 0 \<and> snd p \<in> set is then Some (ChannelFeature (xs ! (snd p - 1)) 0)
      else if snd p = 0 \<and> fst p \<in> set is then Some (ChannelFeature (ys ! (fst p - 1)) 0)
      else snd d p)"
  using assms
proof (induction "is" arbitrary: d)
  case Nil
  show ?case by simp
next
  case (Cons i "is")
  then have "0 \<notin> set is" and "i \<noteq> 0" by auto
  then show ?case
    by (auto simp add: Cons.IH border_step_x border_step_y prod_eq_iff)
qed

lemma fold_inner_x:
  "fst (fold (interior_step xs ys i) js d) p =
     (if fst p = i \<and> snd p \<in> set js
      then Some (ChannelFeature (xs ! (fst p - 1)) (snd p - 1)) else fst d p)"
proof (induction js arbitrary: d)
  case Nil
  show ?case by simp
next
  case (Cons j js)
  show ?case
    by (auto simp add: Cons.IH interior_step_x interior_step_y prod_eq_iff)
qed

lemma fold_inner_y:
  "snd (fold (interior_step xs ys i) js d) p =
     (if fst p = i \<and> snd p \<in> set js
      then Some (ChannelFeature (ys ! (snd p - 1)) (fst p - 1)) else snd d p)"
proof (induction js arbitrary: d)
  case Nil
  show ?case by simp
next
  case (Cons j js)
  show ?case
    by (auto simp add: Cons.IH interior_step_x interior_step_y prod_eq_iff)
qed

lemma fold_interior_x:
  "fst (fold (\<lambda>i. fold (interior_step xs ys i) js) is d) p =
     (if fst p \<in> set is \<and> snd p \<in> set js
      then Some (ChannelFeature (xs ! (fst p - 1)) (snd p - 1)) else fst d p)"
proof (induction "is" arbitrary: d)
  case Nil
  show ?case by simp
next
  case (Cons i "is")
  show ?case by (auto simp add: Cons.IH fold_inner_x)
qed

lemma fold_interior_y:
  "snd (fold (\<lambda>i. fold (interior_step xs ys i) js) is d) p =
     (if fst p \<in> set is \<and> snd p \<in> set js
      then Some (ChannelFeature (ys ! (snd p - 1)) (fst p - 1)) else snd d p)"
proof (induction "is" arbitrary: d)
  case Nil
  show ?case by simp
next
  case (Cons i "is")
  show ?case by (auto simp add: Cons.IH fold_inner_y)
qed

lemma dimensions_x:
  assumes "length ys = length xs"
  shows "\<exists>d. dimensions xs ys = Inr d \<and>
     (\<forall>p. fst d p =
       (if 1 \<le> fst p \<and> fst p \<le> length xs \<and> 1 \<le> snd p \<and> snd p \<le> length xs
        then Some (ChannelFeature (xs ! (fst p - 1)) (snd p - 1))
        else if fst p \<le> length xs \<and> snd p \<le> length xs \<and> (fst p = 0 \<or> snd p = 0)
        then Some Time else None))"
  using assms
  by (auto simp add: dimensions_def Let_def fold_interior_x fold_border_x simp del: upt_Suc)

lemma dimensions_y:
  assumes "length ys = length xs"
  shows "\<exists>d. dimensions xs ys = Inr d \<and>
     (\<forall>p. snd d p =
       (if 1 \<le> fst p \<and> fst p \<le> length xs \<and> 1 \<le> snd p \<and> snd p \<le> length xs
        then Some (ChannelFeature (ys ! (snd p - 1)) (fst p - 1))
        else if fst p = 0 \<and> 1 \<le> snd p \<and> snd p \<le> length xs
        then Some (ChannelFeature (xs ! (snd p - 1)) 0)
        else if snd p = 0 \<and> 1 \<le> fst p \<and> fst p \<le> length xs
        then Some (ChannelFeature (ys ! (fst p - 1)) 0)
        else if fst p = 0 \<and> snd p = 0 then Some Time else None))"
  using assms
  by (auto simp add: dimensions_def Let_def fold_interior_y fold_border_y simp del: upt_Suc)


text \<open>
  C6: for channel sequences of equal length \<open>n\<close> the two dictionaries have the same keys,
  exactly the cells \<open>(row, col)\<close> with \<open>row, col \<in> {0..n}\<close>; cell \<open>(0, 0)\<close> is time on both
  axes; in the first row x is time and y is \<open>(x_channels[col - 1], 0)\<close>; in the first
  column x is time and y is \<open>(y_channels[row - 1], 0)\<close>; in the interior x is
  \<open>(x_channels[row - 1], col - 1)\<close> and y is \<open>(y_channels[col - 1], row - 1)\<close>.
\<close>

theorem dimensions_grid:
  assumes "length ys = length xs"
  shows "\<exists>x_dim y_dim. dimensions xs ys = Inr (x_dim, y_dim)
     \<and> dom x_dim = dom y_dim
     \<and> dom x_dim = {0..length xs} \<times> {0..length xs}
     \<and> x_dim (0, 0) = Some Time \<and> y_dim (0, 0) = Some Time
     \<and> (\<forall>col\<in>{1..length xs}. x_dim (0, col) = Some Time
           \<and> y_dim (0, col) = Some (ChannelFeature (xs ! (col - 1)) 0))
     \<and> (\<forall>row\<in>{1..length xs}. x_dim (row, 0) = Some Time
           \<and> y_dim (row, 0) = Some (ChannelFeature (ys ! (row - 1)) 0))
     \<and> (\<forall>row\<in>{1..length xs}. \<forall>col\<in>{1..length xs}.
           x_dim (row, col) = Some (ChannelFeature (xs ! (row - 1)) (col - 1))
           \<and> y_dim (row, col) = Some (ChannelFeature (ys ! (col - 1)) (row - 1)))"
proof -
  from dimensions_x [OF assms] obtain d where d: "dimensions xs ys = Inr d"
    and x: "\<And>p. fst d p =
       (if 1 \<le> fst p \<and> fst p \<le> length xs \<and> 1 \<le> snd p \<and> snd p \<le> length xs
        then Some (ChannelFeature (xs ! (fst p - 1)) (snd p - 1))
        else if fst p \<le> length xs \<and> snd p \<le> length xs \<and> (fst p = 0 \<or> snd p = 0)
        then Some Time else None)"
    by blast
  from dimensions_y [OF assms] d have y: "\<And>p. snd d p =
       (if 1 \<le> fst p \<and> fst p \<le> length xs \<and> 1 \<le> snd p \<and> snd p \<le> length xs
        then Some (ChannelFeature (ys ! (snd p - 1)) (fst p - 1))
        else if fst p = 0 \<and> 1 \<le> snd p \<and> snd p \<le> length xs
        then Some (ChannelFeature (xs ! (snd p - 1)) 0)
        else if snd p = 0 \<and> 1 \<le> fst p \<and> fst p \<le> length xs
        then Some (ChannelFeature (ys ! (fst p - 1)) 0)
        else if fst p = 0 \<and> snd p = 0 then Some Time else None)"
    by auto
  have domx: "dom (fst d) = {0..length xs} \<times> {0..length xs}"
    by (auto simp add: dom_def x split: if_splits)
  have domy: "dom (snd d) = {0..length xs} \<times> {0..length xs}"
    by (auto simp add: dom_def y split: if_splits)
  have "dimensions xs ys = Inr (fst d, snd d)"
    using d by simp
  moreover have "dom (fst d) = dom (snd d)"
    using domx domy by simp
  moreover have "fst d (0, 0) = Some Time \<and> snd d (0, 0) = Some Time"
    by (simp add: x y)
  moreover have "\<forall>col\<in>{1..length xs}. fst d (0, col) = Some Time
           \<and> snd d (0, col) = Some (ChannelFeature (xs ! (col - 1)) 0)"
    by (simp add: x y)
  moreover have "\<forall>row\<in>{1..length xs}. fst d (row, 0) = Some Time
           \<and> snd d (row, 0) = Some (ChannelFeature (ys ! (row - 1)) 0)"
    by (simp add: x y)
  moreover have "\<forall>row\<in>{1..length xs}. \<forall>col\<in>{1..length xs}.
           fst d (row, col) = Some (ChannelFeature (xs ! (row - 1)) (col - 1))
           \<and> snd d (row, col) = Some (ChannelFeature (ys ! (col - 1)) (row - 1))"
    by (simp add: x y)
  ultimately show ?thesis
    using domx by blast
qed


theorem dimensions_grid_witness:
  "length [7, 9 :: int] = length [3, 5 :: int]
   \<and> x_dim_of [3, 5] [7, 9] (1, 2) = Inr (ChannelFeature 3 1)
   \<and> y_dim_of [3, 5] [7, 9] (1, 2) = Inr (ChannelFeature 9 0)
   \<and> x_dim_of [3, 5] [7, 9] (0, 2) = Inr Time
   \<and> y_dim_of [3, 5] [7, 9] (0, 2) = Inr (ChannelFeature 5 0)
   \<and> y_dim_of [3, 5] [7, 9] (2, 0) = Inr (ChannelFeature 9 0)"
proof -
  have l: "length [7, 9 :: int] = length [3, 5 :: int]" by simp
  from dimensions_grid [OF l] obtain x_dim y_dim where
    d: "dimensions [3, 5] [7, 9] = Inr (x_dim, y_dim)"
    and r: "\<forall>col\<in>{1..2}. x_dim (0, col) = Some Time
           \<and> y_dim (0, col) = Some (ChannelFeature ([3, 5] ! (col - 1)) 0)"
    and c: "\<forall>row\<in>{1..2}. x_dim (row, 0) = Some Time
           \<and> y_dim (row, 0) = Some (ChannelFeature ([7, 9] ! (row - 1)) 0)"
    and i: "\<forall>row\<in>{1..2}. \<forall>col\<in>{1..2}.
           x_dim (row, col) = Some (ChannelFeature ([3, 5] ! (row - 1)) (col - 1))
           \<and> y_dim (row, col) = Some (ChannelFeature ([7, 9] ! (col - 1)) (row - 1))"
    by auto
  from r have "x_dim (0, 2) = Some Time" "y_dim (0, 2) = Some (ChannelFeature 5 0)"
    by auto
  moreover from c have "y_dim (2, 0) = Some (ChannelFeature 9 0)"
    by auto
  moreover from i have "x_dim (1, 2) = Some (ChannelFeature 3 1)"
    "y_dim (1, 2) = Some (ChannelFeature 9 0)"
    by auto
  ultimately show ?thesis
    using d by (simp add: x_dim_of_def y_dim_of_def lookup_def)
qed

text \<open>
  C5, as stated, fails in its last but one value: for \<open>x_channels = [3, 5]\<close> and
  \<open>y_channels = [7, 9]\<close> the x dimension of cell \<open>(2, 2)\<close> is \<open>(5, 1)\<close>, the second x
  channel, and not \<open>(3, 1)\<close>.
\<close>

theorem dimensions_example_counterexample:
  "x_dim_of [3, 5] [7, 9] (2, 2) = Inr (ChannelFeature 5 1)
   \<and> x_dim_of [3, 5] [7, 9] (2, 2) \<noteq> Inr (ChannelFeature 3 1)"
proof -
  have "x_dim_of [3, 5] [7, 9] (2, 2) = Inr (ChannelFeature 5 1)"
    by code_simp
  then show ?thesis by simp
qed

lemma dimensions_origin:
  assumes "length ys = length xs"
  shows "x_dim_of xs ys (0, 0) = Inr Time" and "y_dim_of xs ys (0, 0) = Inr Time"
  using dimensions_x [OF assms] dimensions_y [OF assms]
  by (auto simp add: x_dim_of_def y_dim_of_def lookup_def)

text \<open>
  C5, amended: for sequences of equal length cell \<open>(0, 0)\<close> is time on both axes, and
  for \<open>x_channels = [3, 5]\<close>, \<open>y_channels = [7, 9]\<close> the cells are
  \<open>x_dim[1, 1] = (3, 0)\<close>, \<open>y_dim[1, 1] = (7, 0)\<close>, \<open>x_dim[2, 2] = (5, 1)\<close> and
  \<open>y_dim[2, 2] = (9, 1)\<close>.
\<close>

theorem dimensions_example:
  "(length ys = length xs \<longrightarrow>
      x_dim_of xs ys (0, 0) = Inr Time \<and> y_dim_of xs ys (0, 0) = Inr Time)
   \<and> x_dim_of [3, 5] [7, 9] (1, 1) = Inr (ChannelFeature 3 0)
   \<and> y_dim_of [3, 5] [7, 9] (1, 1) = Inr (ChannelFeature 7 0)
   \<and> x_dim_of [3, 5] [7, 9] (2, 2) = Inr (ChannelFeature 5 1)
   \<and> y_dim_of [3, 5] [7, 9] (2, 2) = Inr (ChannelFeature 9 1)"
proof (intro conjI impI)
  show "x_dim_of [3, 5] [7, 9] (1, 1) = Inr (ChannelFeature 3 0)" by code_simp
  show "y_dim_of [3, 5] [7, 9] (1, 1) = Inr (ChannelFeature 7 0)" by code_simp
  show "x_dim_of [3, 5] [7, 9] (2, 2) = Inr (ChannelFeature 5 1)" by code_simp
  show "y_dim_of [3, 5] [7, 9] (2, 2) = Inr (ChannelFeature 9 1)" by code_simp
qed (simp_all add: dimensions_origin)

theorem dimensions_example_witness:
  "length [4 :: int] = length [8 :: int]
   \<and> x_dim_of [8] [4] (0, 0) = Inr Time \<and> y_dim_of [8] [4] (0, 0) = Inr Time"
  using dimensions_example [of "[4]" "[8]"] by simp

subsection \<open>Properties of \<^verbatim>\<open>_normalize\<close>\<close>

lemma np_max_nonempty:
  assumes "xs \<noteq> []"
  shows "np_max xs = Inr (Max (set xs))"
  using assms by (cases xs) (simp_all add: np_max_def Max.set_eq_fold [symmetric])

lemma map_err_total:
  assumes "\<And>x. x \<in> set xs \<Longrightarrow> f x = Inr (g x)"
  shows "map_err f xs = Inr (map g xs)"
  using assms by (induction xs) simp_all

lemma normalize_slice_nonempty:
  assumes "sl \<noteq> []"
  shows "normalize_slice sl = Inr (map (\<lambda>x. x * (1 / max 1 (Max (set sl)))) sl)"
  using assms by (simp add: normalize_slice_def np_max_nonempty)

lemma normalize_equal:
  assumes "concat (concat raw) \<noteq> []"
  shows "normalize_ccgs ''equal'' raw =
     Inr (Some (map (map (map (\<lambda>x. x * (1 / max 1 (Max (set (concat (concat raw)))))))) raw))"
proof -
  from assms have "raw \<noteq> []" by auto
  with assms show ?thesis
    by (simp add: normalize_ccgs_def np_max_nonempty)
qed

lemma normalize_independent:
  assumes "raw \<noteq> []" and "\<forall>row\<in>set raw. \<forall>sl\<in>set row. sl \<noteq> []"
  shows "normalize_ccgs ''independent'' raw =
     Inr (Some (map (map (\<lambda>sl. map (\<lambda>x. x * (1 / max 1 (Max (set sl)))) sl)) raw))"
proof -
  have "map_err (map_err normalize_slice) raw =
      Inr (map (map (\<lambda>sl. map (\<lambda>x. x * (1 / max 1 (Max (set sl)))) sl)) raw)"
  proof (rule map_err_total)
    fix row assume "row \<in> set raw"
    with assms(2) have "\<And>sl. sl \<in> set row \<Longrightarrow> sl \<noteq> []" by blast
    then show "map_err normalize_slice row =
        Inr (map (\<lambda>sl. map (\<lambda>x. x * (1 / max 1 (Max (set sl)))) sl) row)"
      by (intro map_err_total normalize_slice_nonempty)
  qed
  with assms(1) show ?thesis
    by (simp add: normalize_ccgs_def)
qed

lemma entry_le_global_max:
  assumes "i < length raw" and "j < length (raw ! i)" and "k < length (raw ! i ! j)"
  shows "raw ! i ! j ! k \<le> Max (set (concat (concat (raw :: tensor))))"
proof -
  have "raw ! i ! j ! k \<in> set (raw ! i ! j)" using assms(3) by simp
  moreover have "raw ! i ! j \<in> set (raw ! i)" using assms(2) by simp
  moreover have "raw ! i \<in> set raw" using assms(1) by simp
  ultimately have "raw ! i ! j ! k \<in> set (concat (concat raw))"
    by auto
  then show ?thesis by simp
qed

text \<open>
  C2: on a tensor with at least one row, no empty row and no empty lag slice, \<open>equal\<close> mode
  multiplies every entry by \<open>1 / max(1, global maximum)\<close>, one scalar for the whole
  tensor, and \<open>independent\<close> mode divides every entry by \<open>max(1, maximum of its lag slice)\<close>.
  Both divisors are at least 1, the shape is kept, and in \<open>equal\<close> mode every normalized
  entry is at most 1. (No sign condition on the entries is needed.)
\<close>

theorem normalize_modes:
  assumes "raw \<noteq> []" and "\<forall>row\<in>set raw. row \<noteq> [] \<and> (\<forall>sl\<in>set row. sl \<noteq> [])"
  shows "\<exists>eq ind.
       normalize_ccgs ''equal'' raw = Inr (Some eq)
     \<and> normalize_ccgs ''independent'' raw = Inr (Some ind)
     \<and> 1 \<le> max 1 (Max (set (concat (concat raw))))
     \<and> length eq = length raw \<and> length ind = length raw
     \<and> (\<forall>i<length raw.
           length (eq ! i) = length (raw ! i) \<and> length (ind ! i) = length (raw ! i)
         \<and> (\<forall>j<length (raw ! i).
               length (eq ! i ! j) = length (raw ! i ! j)
             \<and> length (ind ! i ! j) = length (raw ! i ! j)
             \<and> 1 \<le> max 1 (Max (set (raw ! i ! j)))
             \<and> (\<forall>k<length (raw ! i ! j).
                   eq ! i ! j ! k
                     = raw ! i ! j ! k * (1 / max 1 (Max (set (concat (concat raw)))))
                 \<and> eq ! i ! j ! k \<le> 1
                 \<and> ind ! i ! j ! k
                     = raw ! i ! j ! k / max 1 (Max (set (raw ! i ! j))))))"
proof -
  let ?m = "max 1 (Max (set (concat (concat raw))))"
  let ?eq = "map (map (map (\<lambda>x. x * (1 / ?m)))) raw"
  let ?ind = "map (map (\<lambda>sl. map (\<lambda>x. x * (1 / max 1 (Max (set sl)))) sl)) raw"
  from assms(1) obtain row rest where raw: "raw = row # rest"
    by (cases raw) auto
  with assms(2) have "row \<noteq> []" and sls: "\<forall>sl\<in>set row. sl \<noteq> []"
    by auto
  then obtain sl srest where row: "row = sl # srest"
    by (cases row) auto
  with sls have "sl \<noteq> []" by simp
  with raw row have ne: "concat (concat raw) \<noteq> []"
    by simp
  have e: "normalize_ccgs ''equal'' raw = Inr (Some ?eq)"
    by (rule normalize_equal [OF ne])
  have i: "normalize_ccgs ''independent'' raw = Inr (Some ?ind)"
    using assms by (intro normalize_independent) auto
  have le: "raw ! i ! j ! k * (1 / ?m) \<le> 1"
    if "i < length raw" "j < length (raw ! i)" "k < length (raw ! i ! j)" for i j k
  proof -
    have "raw ! i ! j ! k \<le> ?m"
      using entry_le_global_max [OF that] by simp
    moreover have "0 < ?m" by simp
    ultimately show ?thesis by (simp add: divide_le_eq_1_pos del: max_less_iff_conj)
  qed
  have "1 \<le> ?m" by simp
  moreover have "length ?eq = length raw \<and> length ?ind = length raw" by simp
  moreover have "\<forall>i<length raw.
           length (?eq ! i) = length (raw ! i) \<and> length (?ind ! i) = length (raw ! i)
         \<and> (\<forall>j<length (raw ! i).
               length (?eq ! i ! j) = length (raw ! i ! j)
             \<and> length (?ind ! i ! j) = length (raw ! i ! j)
             \<and> 1 \<le> max 1 (Max (set (raw ! i ! j)))
             \<and> (\<forall>k<length (raw ! i ! j).
                   ?eq ! i ! j ! k = raw ! i ! j ! k * (1 / ?m)
                 \<and> ?eq ! i ! j ! k \<le> 1
                 \<and> ?ind ! i ! j ! k
                     = raw ! i ! j ! k / max 1 (Max (set (raw ! i ! j)))))"
    using le by simp
  ultimately show ?thesis
    using e i by blast
qed

text \<open>
  C10: with a mode other than \<open>equal\<close> and \<open>independent\<close> the function returns \<^verbatim>\<open>None\<close>
  on a tensor with at least one row; on a tensor without rows it returns its input,
  whatever the mode.
\<close>

theorem normalize_other_mode:
  "(mode \<noteq> ''equal'' \<and> mode \<noteq> ''independent'' \<and> length raw \<noteq> 0
      \<longrightarrow> normalize_ccgs mode raw = Inr None)
   \<and> (length raw = 0 \<longrightarrow> normalize_ccgs mode raw = Inr (Some raw))"
  by (simp add: normalize_ccgs_def)

theorem normalize_modes_witness:
  "[[[0, 2], [4, 1]]] \<noteq> ([] :: tensor)
   \<and> normalize_ccgs ''equal'' [[[0, 2], [4, 1]]] = Inr (Some [[[0, 1 / 2], [1, 1 / 4]]])
   \<and> normalize_ccgs ''independent'' [[[0, 2], [4, 1]]] = Inr (Some [[[0, 1], [1, 1 / 4]]])"
  using normalize_modes [of "[[[0, 2], [4, 1]]]"]
  by (simp add: normalize_ccgs_def normalize_slice_def np_max_def)

theorem normalize_other_mode_witness:
  "normalize_ccgs ''peak'' [[[3]]] = Inr None
   \<and> normalize_ccgs ''peak'' [] = Inr (Some [])
   \<and> normalize_ccgs ''equal'' [] = Inr (Some [])"
  using normalize_other_mode [of "''peak''" "[[[3]]]"] normalize_other_mode [of "''peak''" "[]"]
    normalize_other_mode [of "''equal''" "[]"]
  by simp

subsection \<open>Properties of \<^verbatim>\<open>change_bins\<close>\<close>

lemma oddify_odd: "odd (oddify x)"
  unfolding oddify_def by presburger

lemma on_select_state:
  "binsize (snd (on_select k sy cl s)) = binsize s"
  "winsize_bins (snd (on_select k sy cl s)) = winsize_bins s"
  "cluster_ids (snd (on_select k sy cl s)) = cluster_ids s"
  "kernel_calls (snd (on_select k sy cl s))
     = kernel_calls s @ [(cl, binsize s, oddify (winsize_bins s))]"
  "ccgs (snd (on_select k sy cl s)) = Some (sy (k cl (binsize s) (oddify (winsize_bins s))))"
  by (simp_all add: on_select_def Let_def split: sum.splits)

lemma select_state:
  "binsize (snd (select k sy cl s)) = binsize s"
  "winsize_bins (snd (select k sy cl s)) = winsize_bins s"
  "kernel_calls (snd (select k sy cl s))
     = kernel_calls s @ [(cl, binsize s, oddify (winsize_bins s))]"
  by (simp_all add: select_def on_select_state)

lemma binsize_after_change_bins:
  "binsize (snd (change_bins k sy sr (Some b) h s))
     = trunc (fmul sr (np_clip (fmul b (fl (1 / 1000))) (fl (1 / 1000)) 1000000))"
  by (cases h) (simp_all add: change_bins_def Let_def select_state)

lemma winsize_after_change_bins:
  "winsize_bins (snd (change_bins k sy sr (Some b) (Some h) s))
     = 2 * trunc (fdiv (np_clip (fmul h (fl (1 / 1000))) (fl (1 / 1000)) 1000000)
                       (np_clip (fmul b (fl (1 / 1000))) (fl (1 / 1000)) 1000000)) + 1"
  by (simp add: change_bins_def Let_def select_state)

lemma kernel_calls_after_change_bins:
  "kernel_calls (snd (change_bins k sy sr (Some b) (Some h) s))
     = kernel_calls s @
         [(cluster_ids s,
           binsize (snd (change_bins k sy sr (Some b) (Some h) s)),
           oddify (winsize_bins (snd (change_bins k sy sr (Some b) (Some h) s))))]"
  by (simp add: change_bins_def Let_def select_state)

text \<open>
  Whatever the doubles are, the stored window size is odd, \<open>oddify\<close> of any integer is
  odd, and the kernel is called with \<open>oddify (winsize_bins)\<close>.
\<close>

lemma winsize_bins_odd:
  "odd (winsize_bins (snd (change_bins k sy sr (Some b) (Some h) s)))"
  unfolding winsize_after_change_bins by simp

text \<open>The double of the literal \<^verbatim>\<open>.001\<close> (bit pattern \<^verbatim>\<open>3F50624DD2F1A9FC\<close>).\<close>

lemma fl_milli: "fl (1 / 1000) = 1152921504606847 / 1152921504606846976"
  by code_simp

text \<open>The example of the specification: bin 1.0 ms, half width 20.5 ms, 20 kHz.\<close>

lemma change_bins_example:
  "binsize (snd (change_bins k sy 20000 (Some 1) (Some (41 / 2)) s)) = 20"
  "winsize_bins (snd (change_bins k sy 20000 (Some 1) (Some (41 / 2)) s)) = 41"
  unfolding binsize_after_change_bins winsize_after_change_bins by code_simp+

text \<open>
  C3: for a bin of 9 ms and a half width of 27 ms the formula
  \<open>2 * floor(half_width_s / bin_s) + 1\<close> is 7. The code stores \<open>winsize_bins = 5\<close> and calls
  the kernel with 5: the quotient of the doubles \<open>0.027\<close> and \<open>0.009000000000000001\<close> is
  \<open>2.9999999999999996\<close>, which \<^verbatim>\<open>int\<close> truncates to 2.
\<close>

theorem change_bins_window_truncated:
  "winsize_bins (snd (change_bins no_spikes id 20000 (Some 9) (Some 27) initial_vm)) = 5
   \<and> kernel_calls (snd (change_bins no_spikes id 20000 (Some 9) (Some 27) initial_vm))
       = [([], 180, 5)]
   \<and> 2 * \<lfloor>(27 / 1000) / (9 / 1000 :: rat)\<rfloor> + 1 = 7"
proof -
  have w: "winsize_bins (snd (change_bins no_spikes id 20000 (Some 9) (Some 27) initial_vm)) = 5"
    unfolding winsize_after_change_bins by code_simp
  have b: "binsize (snd (change_bins no_spikes id 20000 (Some 9) (Some 27) initial_vm)) = 180"
    unfolding binsize_after_change_bins by code_simp
  have "kernel_calls (snd (change_bins no_spikes id 20000 (Some 9) (Some 27) initial_vm))
       = [([], 180, 5)]"
    unfolding kernel_calls_after_change_bins w b by (simp add: initial_vm_def oddify_def)
  with w show ?thesis by simp
qed

text \<open>
  C4: the code stores \<^verbatim>\<open>int(sr * bin)\<close>, not the nearest integer of the product. At
  25000 Hz and 73 ms the product of the doubles is \<open>1824.9999999999998\<close>; the code stores
  1824, the nearest integer is 1825 (and the exact product is 1825). At 20000 Hz and
  1.99 ms the product is about 39.8; the code stores 39, the nearest integer is 40.
\<close>

theorem change_bins_binsize_truncated:
  "binsize (snd (change_bins no_spikes id 25000 (Some 73) (Some 20) initial_vm)) = 1824
   \<and> round (fmul 25000 (np_clip (fmul 73 (fl (1 / 1000))) (fl (1 / 1000)) 1000000)) = 1825
   \<and> round (25000 * (73 / 1000 :: rat)) = 1825
   \<and> binsize (snd (change_bins no_spikes id 20000 (Some (fl (199 / 100))) (Some 20) initial_vm))
       = 39
   \<and> round (fmul 20000 (np_clip (fmul (fl (199 / 100)) (fl (1 / 1000))) (fl (1 / 1000)) 1000000))
       = 40"
proof (intro conjI)
  show "binsize (snd (change_bins no_spikes id 25000 (Some 73) (Some 20) initial_vm)) = 1824"
    unfolding binsize_after_change_bins by code_simp
  show "round (fmul 25000 (np_clip (fmul 73 (fl (1 / 1000))) (fl (1 / 1000)) 1000000)) = 1825"
    by code_simp
  show "round (25000 * (73 / 1000 :: rat)) = 1825"
    by code_simp
  show "binsize (snd (change_bins no_spikes id 20000 (Some (fl (199 / 100))) (Some 20) initial_vm))
       = 39"
    unfolding binsize_after_change_bins by code_simp
  show "round (fmul 20000 (np_clip (fmul (fl (199 / 100)) (fl (1 / 1000))) (fl (1 / 1000)) 1000000))
       = 40"
    by code_simp
qed

text \<open>Sanity of the rounding: ties go to the even mantissa, doubles are fixed, signs commute.\<close>

lemma fl_ties:
  "fl 9007199254740993 = 9007199254740992"
  "fl 9007199254740995 = 9007199254740996"
  "fl (fl (1 / 1000)) = fl (1 / 1000)"
  "fl (- (1 / 1000)) = - fl (1 / 1000)"
  by code_simp+

subsection \<open>The normalization switch\<close>

lemma normalization_setter_state:
  "ccgs (snd (normalization_setter v s)) = ccgs s"
  "kernel_calls (snd (normalization_setter v s)) = kernel_calls s"
  by (simp_all add: normalization_setter_def Let_def split: option.splits sum.splits)

text \<open>
  C8: the setter of \<^verbatim>\<open>normalization\<close> and \<^verbatim>\<open>toggle_normalization\<close> leave the cached
  tensor and the record of kernel calls as they are. With a cached tensor \<open>c\<close>, each of
  them changes the mode (the toggle to the other mode), assigns \<^verbatim>\<open>_normalize(c)\<close> under
  the new mode to the correlograms of the visual and updates the view, and nothing else;
  when the normalization raises, or nothing is cached yet, only the mode has changed. The
  cached tensor is the symmetrized kernel output that \<^verbatim>\<open>on_select\<close> stored, and
  \<^verbatim>\<open>on_select\<close> is what calls the kernel.
\<close>

theorem normalization_switch_frame:
  "ccgs (snd (normalization_setter v s)) = ccgs s
   \<and> kernel_calls (snd (normalization_setter v s)) = kernel_calls s
   \<and> ccgs (snd (toggle_normalization s)) = ccgs s
   \<and> kernel_calls (snd (toggle_normalization s)) = kernel_calls s
   \<and> normalization (snd (toggle_normalization s))
       = (if normalization s = ''independent'' then ''equal'' else ''independent'')
   \<and> (ccgs s = Some c \<and> normalize_ccgs v c = Inr t \<longrightarrow>
        normalization_setter v s
          = (None, s\<lparr>normalization := v, visual_correlograms := t,
                      updates := updates s + 1\<rparr>))
   \<and> (ccgs s = Some c \<and> normalize_ccgs v c = Inl e \<longrightarrow>
        normalization_setter v s = (Some e, s\<lparr>normalization := v\<rparr>))
   \<and> (ccgs s = None \<longrightarrow>
        normalization_setter v s = (Some TypeError, s\<lparr>normalization := v\<rparr>))
   \<and> (ccgs s = Some c
        \<and> normalize_ccgs (if normalization s = ''independent'' then ''equal'' else ''independent'') c
            = Inr t \<longrightarrow>
        toggle_normalization s
          = (None, s\<lparr>normalization :=
                        (if normalization s = ''independent'' then ''equal'' else ''independent''),
                      visual_correlograms := t, updates := updates s + 1\<rparr>))
   \<and> (ccgs s = Some c
        \<and> normalize_ccgs (if normalization s = ''independent'' then ''equal'' else ''independent'') c
            = Inl e \<longrightarrow>
        toggle_normalization s
          = (Some e, s\<lparr>normalization :=
                          (if normalization s = ''independent'' then ''equal''
                           else ''independent'')\<rparr>))
   \<and> (ccgs s = None \<longrightarrow>
        toggle_normalization s
          = (Some TypeError, s\<lparr>normalization :=
                                  (if normalization s = ''independent'' then ''equal''
                                   else ''independent'')\<rparr>))
   \<and> ccgs (snd (on_select k sy cl s))
       = Some (sy (k cl (binsize s) (oddify (winsize_bins s))))
   \<and> length (kernel_calls (snd (on_select k sy cl s))) = length (kernel_calls s) + 1"
proof -
  let ?m = "if normalization s = ''independent'' then ''equal'' else ''independent''"
  have t: "toggle_normalization s = normalization_setter ?m s"
    by (simp add: toggle_normalization_def)
  have m: "normalization (snd (normalization_setter ?m s)) = ?m"
    by (simp add: normalization_setter_def Let_def split: option.splits sum.splits)
  show ?thesis
    unfolding t
  proof (intro conjI impI)
    show "normalization (snd (normalization_setter ?m s)) = ?m"
      by (rule m)
  qed (simp_all only: normalization_setter_state on_select_state length_append list.size,
       simp_all add: normalization_setter_def)
qed

theorem normalization_switch_frame_witness:
  "normalization_setter ''independent'' (initial_vm\<lparr>ccgs := Some [[[0, 2], [4, 1]]]\<rparr>)
     = (None, initial_vm\<lparr>ccgs := Some [[[0, 2], [4, 1]]], normalization := ''independent'',
          visual_correlograms := Some [[[0, 1], [1, 1 / 4]]], updates := 1\<rparr>)
   \<and> toggle_normalization (initial_vm\<lparr>ccgs := Some [[[0, 2], [4, 1]]]\<rparr>)
     = (None, initial_vm\<lparr>ccgs := Some [[[0, 2], [4, 1]]], normalization := ''independent'',
          visual_correlograms := Some [[[0, 1], [1, 1 / 4]]], updates := 1\<rparr>)
   \<and> normalization_setter ''independent'' initial_vm
     = (Some TypeError, initial_vm\<lparr>normalization := ''independent''\<rparr>)
   \<and> toggle_normalization initial_vm
     = (Some TypeError, initial_vm\<lparr>normalization := ''independent''\<rparr>)
   \<and> normalization_setter ''equal'' (initial_vm\<lparr>ccgs := Some [[]]\<rparr>)
     = (Some ValueError, initial_vm\<lparr>ccgs := Some [[]]\<rparr>)
   \<and> toggle_normalization (initial_vm\<lparr>ccgs := Some [[[]]]\<rparr>)
     = (Some ValueError, initial_vm\<lparr>ccgs := Some [[[]]], normalization := ''independent''\<rparr>)"
proof -
  have n: "normalize_ccgs ''independent'' [[[0, 2], [4, 1]]] = Inr (Some [[[0, 1], [1, 1 / 4]]])"
    by (simp add: normalize_ccgs_def normalize_slice_def np_max_def)
  have e: "normalize_ccgs ''equal'' [[]] = Inl ValueError"
    by (simp add: normalize_ccgs_def np_max_def)
  have i: "normalize_ccgs ''independent'' [[[]]] = Inl ValueError"
    by (simp add: normalize_ccgs_def normalize_slice_def np_max_def)
  show ?thesis
    using n e i
      normalization_switch_frame [of "''independent''" "initial_vm\<lparr>ccgs := Some [[[0, 2], [4, 1]]]\<rparr>"
        "[[[0, 2], [4, 1]]]" "Some [[[0, 1], [1, 1 / 4]]]" ValueError no_spikes id "[]"]
      normalization_switch_frame [of "''independent''" initial_vm
        "[[[0, 2], [4, 1]]]" "Some [[[0, 1], [1, 1 / 4]]]" ValueError no_spikes id "[]"]
      normalization_switch_frame [of "''equal''" "initial_vm\<lparr>ccgs := Some [[]]\<rparr>"
        "[[]]" None ValueError no_spikes id "[]"]
      normalization_switch_frame [of "''equal''" "initial_vm\<lparr>ccgs := Some [[[]]]\<rparr>"
        "[[[]]]" None ValueError no_spikes id "[]"]
    by (simp add: initial_vm_def)
qed

end
